theory Spec2Isabelle
  imports Main
begin

section \<open>Python string operations used by the two scripts\<close>

text \<open>
  A Python \<open>str\<close> is a sequence of Unicode code points. The model represents it by
  \<^typ>\<open>string\<close>, a list of 8-bit characters, and reads the character with code
  \<open>n\<close> as the code point \<open>U+00n\<close>: the strings of the model are the Python strings
  over \<open>U+0000..U+00FF\<close>, and a text holding any other code point has no counterpart
  in it.

  \<open>str.isspace\<close> on this range is true of tab, line feed, vertical tab, form feed,
  carriage return, the four separators \<open>0x1C..0x1F\<close>, the space, next line
  (\<open>0x85\<close>) and the no-break space (\<open>0xA0\<close>).
\<close>

definition py_isspace :: "char \<Rightarrow> bool" where
  "py_isspace c = (c \<in> set [CHR 0x09, CHR 0x0A, CHR 0x0B, CHR 0x0C, CHR 0x0D,
                              CHR 0x1C, CHR 0x1D, CHR 0x1E, CHR 0x1F, CHR 0x20,
                              CHR 0x85, CHR 0xA0])"

text \<open>\<open>s.strip()\<close>: leading and trailing whitespace removed.\<close>

definition py_strip :: "string \<Rightarrow> string" where
  "py_strip s = rev (dropWhile py_isspace (rev (dropWhile py_isspace s)))"

text \<open>\<open>s.startswith(p)\<close>.\<close>

definition py_startswith :: "string \<Rightarrow> string \<Rightarrow> bool" where
  "py_startswith s p = (take (length p) s = p)"

text \<open>\<open>needle in s\<close>: the needle starts at some position of \<open>s\<close>.\<close>

fun py_contains :: "string \<Rightarrow> string \<Rightarrow> bool" where
  "py_contains needle [] = (needle = [])"
| "py_contains needle (c # cs) = (py_startswith (c # cs) needle \<or> py_contains needle cs)"

text \<open>
  \<open>s.split(sep)\<close> for a non-empty separator: the pieces between the occurrences of
  \<open>sep\<close>, found from the left without overlap. The result is never empty. (Python
  raises \<open>ValueError\<close> on an empty separator; the scripts only pass the constants
  \<open>'=='\<close> and \<open>'-'\<close>, and the model returns the whole string there.)
\<close>

function split_from :: "string \<Rightarrow> string \<Rightarrow> string \<Rightarrow> string list" where
  "split_from sep acc [] = [acc]"
| "split_from sep acc (c # cs) =
     (if sep \<noteq> [] \<and> py_startswith (c # cs) sep
      then acc # split_from sep [] (drop (length sep) (c # cs))
      else split_from sep (acc @ [c]) cs)"
  by pat_completeness auto
termination
  by (relation "measure (\<lambda>(sep, acc, s). length s)") auto

definition py_split :: "string \<Rightarrow> string \<Rightarrow> string list" where
  "py_split s sep = split_from sep [] s"

text \<open>\<open>s.replace(old, new)\<close> for a one-character \<open>old\<close>.\<close>

definition py_replace :: "string \<Rightarrow> char \<Rightarrow> string \<Rightarrow> string" where
  "py_replace s old new = concat (map (\<lambda>c. if c = old then new else [c]) s)"

text \<open>
  \<open>s.lower()\<close>: on \<open>U+0000..U+00FF\<close> the letters \<open>A..Z\<close> and the letters
  \<open>U+00C0..U+00DE\<close> other than the multiplication sign \<open>U+00D7\<close> move up by
  \<open>0x20\<close>; every other code point stays.
\<close>

definition py_lower_char :: "char \<Rightarrow> char" where
  "py_lower_char c =
     (let n = (of_char c :: nat) in
      if (65 \<le> n \<and> n \<le> 90) \<or> (192 \<le> n \<and> n \<le> 222 \<and> n \<noteq> 215)
      then char_of (n + 32) else c)"

definition py_lower :: "string \<Rightarrow> string" where
  "py_lower s = map py_lower_char s"

text \<open>
  Iterating a file opened in text mode: universal newlines turn \<open>\r\n\<close> and a lone
  \<open>\r\<close> into \<open>\n\<close>, and each line keeps its final \<open>\n\<close> (the last line may
  have none).
\<close>

fun universal_newlines :: "string \<Rightarrow> string" where
  "universal_newlines [] = []"
| "universal_newlines [c] = (if c = CHR 0x0D then [CHR 0x0A] else [c])"
| "universal_newlines (c # d # cs) =
     (if c = CHR 0x0D then
        (if d = CHR 0x0A then CHR 0x0A # universal_newlines cs
         else CHR 0x0A # universal_newlines (d # cs))
      else c # universal_newlines (d # cs))"

fun lines_from :: "string \<Rightarrow> string \<Rightarrow> string list" where
  "lines_from acc [] = (if acc = [] then [] else [acc])"
| "lines_from acc (c # cs) =
     (if c = CHR 0x0A then (acc @ [c]) # lines_from [] cs else lines_from (acc @ [c]) cs)"

definition file_lines :: "string \<Rightarrow> string list" where
  "file_lines text = lines_from [] (universal_newlines text)"

text \<open>
  \<open>s.splitlines()\<close>: the lines of \<open>s\<close> without their ends. On \<open>U+0000..U+00FF\<close>
  a line ends at \<open>\n\<close>, \<open>\r\<close>, \<open>\r\n\<close> (one end), vertical tab, form feed, the
  separators \<open>0x1C\<close>, \<open>0x1D\<close>, \<open>0x1E\<close>, and next line (\<open>0x85\<close>). No empty last
  line is added after a final line end.
\<close>

definition line_boundary :: "char \<Rightarrow> bool" where
  "line_boundary c = (c \<in> set [CHR 0x0A, CHR 0x0B, CHR 0x0C, CHR 0x0D,
                                 CHR 0x1C, CHR 0x1D, CHR 0x1E, CHR 0x85])"

fun splitlines_from :: "string \<Rightarrow> string \<Rightarrow> string list" where
  "splitlines_from acc [] = (if acc = [] then [] else [acc])"
| "splitlines_from acc [c] = (if line_boundary c then [acc] else [acc @ [c]])"
| "splitlines_from acc (c # d # cs) =
     (if c = CHR 0x0D \<and> d = CHR 0x0A then acc # splitlines_from [] cs
      else if line_boundary c then acc # splitlines_from [] (d # cs)
      else splitlines_from (acc @ [c]) (d # cs))"

definition py_splitlines :: "string \<Rightarrow> string list" where
  "py_splitlines s = splitlines_from [] s"

section \<open>install.py\<close>

subsection \<open>Observable effects and the results of outside operations\<close>

text \<open>
  Every effect the installer has on its surroundings, in the order it happens: a line
  printed, a prompt shown, the digest file written, a subprocess run, a module import
  attempted.
\<close>

datatype event =
    Print string
  | Prompt string
  | SaveHash string
  | PythonVersion
  | PipInstall string
  | PipUninstall string
  | PipShow string
  | ImportModule string

text \<open>
  \<open>subprocess.run(..., check=True, capture_output=True)\<close> returns (with the text the
  process wrote to its standard output), raises \<open>CalledProcessError\<close> on a non-zero
  exit status (with the text the handler reads from the exception: its \<open>stderr\<close> in
  \<open>install_package\<close>, its message in \<open>uninstall_package\<close>), raises
  \<open>FileNotFoundError\<close> when the executable is missing, or raises something else.
\<close>

datatype proc_result =
    Exited string
  | CalledProcessError string
  | ProcFileNotFound
  | ProcRaised

text \<open>
  \<open>importlib.import_module\<close> returns, raises \<open>ImportError\<close>, or raises something
  else (for instance \<open>ValueError\<close> on an empty name).
\<close>

datatype import_result = Imported | ImportError | ImportRaised

text \<open>
  The requirements manifest as \<open>open\<close> and the iteration over it find it: opening it
  raises \<open>IOError\<close> (with its message), or its bytes do not decode and the iteration
  raises \<open>UnicodeDecodeError\<close>, or it has a text.
\<close>

datatype manifest = OpenFails string | DecodeFails | Text string

text \<open>
  The digest file \<open>.install_script_hash\<close> as \<open>load_script_hash\<close> finds it: absent
  (\<open>FileNotFoundError\<close>), readable with a text, or raising another error when opened
  or read.
\<close>

datatype hash_file = NoHashFile | HashFile string | HashFileError

subsection \<open>\<open>read_requirements\<close>\<close>

text \<open>
  The comprehension \<open>[line.strip() for line in f if line.strip() and not
  line.startswith('#')]\<close>, one line at a time. The comment test reads the line as it
  stands in the file, not the stripped one.
\<close>

fun requirement_lines :: "string list \<Rightarrow> string list" where
  "requirement_lines [] = []"
| "requirement_lines (line # rest) =
     (if py_strip line \<noteq> [] \<and> \<not> py_startswith line ''#''
      then py_strip line # requirement_lines rest
      else requirement_lines rest)"

text \<open>
  The result is \<open>Some\<close> of the list returned, and \<open>None\<close> when an exception leaves
  the function: \<open>except IOError\<close> catches the failure to open the file (the error is
  printed and the list is empty) and does not catch \<open>UnicodeDecodeError\<close>.
\<close>

definition read_requirements :: "manifest \<Rightarrow> event list \<times> string list option" where
  "read_requirements file =
     (case file of
        OpenFails e \<Rightarrow> ([Print (''Error reading requirements file: '' @ e)], Some [])
      | DecodeFails \<Rightarrow> ([], None)
      | Text text \<Rightarrow> ([], Some (requirement_lines (file_lines text))))"

text \<open>The two kinds of line the manifest format ignores.\<close>

definition blank_line :: "string \<Rightarrow> bool" where
  "blank_line line = (py_strip line = [])"

definition comment_line :: "string \<Rightarrow> bool" where
  "comment_line line = py_startswith line ''#''"

subsection \<open>\<open>validate_package_name\<close>\<close>

text \<open>
  Regular expressions over characters, as far as the pattern of
  \<open>validate_package_name\<close> needs them, matched with derivatives: \<open>deriv c r\<close>
  matches what \<open>r\<close> matches after a leading \<open>c\<close>.
\<close>

datatype regex =
    Empty
  | Eps
  | Class "char \<Rightarrow> bool"
  | Seq regex regex
  | Alt regex regex
  | Opt regex
  | Star regex
  | Plus regex

fun nullable :: "regex \<Rightarrow> bool" where
  "nullable Empty = False"
| "nullable Eps = True"
| "nullable (Class p) = False"
| "nullable (Seq r s) = (nullable r \<and> nullable s)"
| "nullable (Alt r s) = (nullable r \<or> nullable s)"
| "nullable (Opt r) = True"
| "nullable (Star r) = True"
| "nullable (Plus r) = nullable r"

fun deriv :: "char \<Rightarrow> regex \<Rightarrow> regex" where
  "deriv c Empty = Empty"
| "deriv c Eps = Empty"
| "deriv c (Class p) = (if p c then Eps else Empty)"
| "deriv c (Seq r s) =
     (if nullable r then Alt (Seq (deriv c r) s) (deriv c s) else Seq (deriv c r) s)"
| "deriv c (Alt r s) = Alt (deriv c r) (deriv c s)"
| "deriv c (Opt r) = deriv c r"
| "deriv c (Star r) = Seq (deriv c r) (Star r)"
| "deriv c (Plus r) = Seq (deriv c r) (Star r)"

fun matches :: "regex \<Rightarrow> string \<Rightarrow> bool" where
  "matches r [] = nullable r"
| "matches r (c # cs) = matches (deriv c r) cs"

text \<open>The character class \<open>[a-zA-Z0-9_.-]\<close> and the class \<open>[<>=!]\<close>.\<close>

definition name_char :: "char \<Rightarrow> bool" where
  "name_char c =
     (let n = (of_char c :: nat) in
        (97 \<le> n \<and> n \<le> 122) \<or> (65 \<le> n \<and> n \<le> 90) \<or> (48 \<le> n \<and> n \<le> 57) \<or>
        c = CHR ''_'' \<or> c = CHR ''.'' \<or> c = CHR ''-'')"

definition op_char :: "char \<Rightarrow> bool" where
  "op_char c = (c = CHR ''<'' \<or> c = CHR ''>'' \<or> c = CHR ''='' \<or> c = CHR ''!'')"

text \<open>
  The pattern between \<open>^\<close> and \<open>$\<close>:
  \<open>[a-zA-Z0-9_.-]+([<>=!]=?[a-zA-Z0-9_.-]+)?\<close>.
\<close>

definition requirement_pattern :: regex where
  "requirement_pattern =
     Seq (Plus (Class name_char))
         (Opt (Seq (Seq (Class op_char) (Opt (Class (\<lambda>c. c = CHR ''=''))))
                   (Plus (Class name_char))))"

text \<open>
  \<open>bool(re.match(r'^...$', package))\<close>. \<open>re.match\<close> anchors at the start; without
  \<open>re.MULTILINE\<close>, Python's \<open>$\<close> matches at the end of the string and also just
  before a line feed that is the string's last character.
\<close>

definition validate_package_name :: "string \<Rightarrow> bool" where
  "validate_package_name package =
     (matches requirement_pattern package \<or>
      (package \<noteq> [] \<and> last package = CHR 0x0A \<and>
       matches requirement_pattern (butlast package)))"

subsection \<open>\<open>install_package\<close>, \<open>uninstall_package\<close> and \<open>verify_installation\<close>\<close>

text \<open>
  \<open>install_package\<close> returns the pair \<open>(True, stdout)\<close> or \<open>(False, stderr)\<close>;
  \<open>None\<close> stands for an exception other than \<open>CalledProcessError\<close>, which leaves
  the function.
\<close>

definition install_package :: "proc_result \<Rightarrow> (bool \<times> string) option" where
  "install_package r =
     (case r of
        Exited out \<Rightarrow> Some (True, out)
      | CalledProcessError err \<Rightarrow> Some (False, err)
      | ProcFileNotFound \<Rightarrow> None
      | ProcRaised \<Rightarrow> None)"

text \<open>
  \<open>uninstall_package\<close>: its effects, and whether it returns (\<open>True\<close>) or an exception
  other than \<open>CalledProcessError\<close> leaves it (\<open>False\<close>).
\<close>

definition uninstall_package :: "proc_result \<Rightarrow> string \<Rightarrow> event list \<times> bool" where
  "uninstall_package r package =
     (case r of
        Exited out \<Rightarrow> ([PipUninstall package, Print (''Uninstalled '' @ package)], True)
      | CalledProcessError e \<Rightarrow>
          ([PipUninstall package,
            Print (''Failed to uninstall '' @ package @ '': '' @ e)], True)
      | ProcFileNotFound \<Rightarrow> ([PipUninstall package], False)
      | ProcRaised \<Rightarrow> ([PipUninstall package], False))"

text \<open>The loop over the variations: the first import that works ends it.\<close>

fun try_variations ::
  "(string \<Rightarrow> import_result) \<Rightarrow> string list \<Rightarrow> event list \<times> import_result" where
  "try_variations imp [] = ([], ImportError)"
| "try_variations imp (variation # rest) =
     (case imp variation of
        Imported \<Rightarrow> ([ImportModule variation], Imported)
      | ImportRaised \<Rightarrow> ([ImportModule variation], ImportRaised)
      | ImportError \<Rightarrow>
          (case try_variations imp rest of
             (evs, r) \<Rightarrow> (ImportModule variation # evs, r)))"

definition package_name_of :: "string \<Rightarrow> string" where
  "package_name_of package = hd (py_split package ''=='')"

definition variations_of :: "string \<Rightarrow> string list" where
  "variations_of package_name =
     [py_replace package_name (CHR ''-'') ''_'',
      last (py_split package_name ''-''),
      concat (py_split package_name ''-'')]"

text \<open>
  The result is \<open>Some b\<close> when the function returns \<open>b\<close> and \<open>None\<close> when an
  exception leaves it: an import raising something other than \<open>ImportError\<close>, or the
  metadata query raising something other than \<open>CalledProcessError\<close>.
\<close>

definition verify_installation ::
  "(string \<Rightarrow> import_result) \<Rightarrow> (string \<Rightarrow> proc_result) \<Rightarrow> string \<Rightarrow>
     event list \<times> bool option" where
  "verify_installation imp run_show package =
     (let package_name = package_name_of package in
      case imp package_name of
        Imported \<Rightarrow> ([ImportModule package_name], Some True)
      | ImportRaised \<Rightarrow> ([ImportModule package_name], None)
      | ImportError \<Rightarrow>
          (case try_variations imp (variations_of package_name) of
             (evs, Imported) \<Rightarrow> (ImportModule package_name # evs, Some True)
           | (evs, ImportRaised) \<Rightarrow> (ImportModule package_name # evs, None)
           | (evs, ImportError) \<Rightarrow>
               (ImportModule package_name # evs @ [PipShow package_name],
                case run_show package_name of
                  Exited out \<Rightarrow> Some (py_contains ''Version:'' out)
                | CalledProcessError err \<Rightarrow> Some False
                | ProcFileNotFound \<Rightarrow> None
                | ProcRaised \<Rightarrow> None)))"

subsection \<open>The surroundings of one run of the installer\<close>

text \<open>
  What the installer reads from outside, as values: the digest of its own file (\<open>None\<close>
  when reading the file raises), the digest file and whether it can be written, the
  answers typed at the prompts (\<open>None\<close> when \<open>input\<close> raises, as at the end of the
  input), and the results of the subprocesses and imports. The loop of \<open>main\<close> handles
  one requirement after the other, so the results that can change while it runs are
  indexed by the position of the requirement being handled (and, for an uninstall, by
  the position in the install record). \<open>print\<close> is taken to return.
\<close>

record env =
  calculate_file_hash :: "string option"
  stored_hash :: hash_file
  hash_writable :: bool
  continue_answer :: "string option"
  python_version :: proc_result
  platform_system :: string
  requirements_exists :: bool
  requirements_file :: manifest
  pip_install :: "nat \<Rightarrow> string \<Rightarrow> proc_result"
  import_module :: "nat \<Rightarrow> string \<Rightarrow> import_result"
  pip_show :: "nat \<Rightarrow> string \<Rightarrow> proc_result"
  rollback_answer :: "nat \<Rightarrow> string option"
  pip_uninstall :: "nat \<Rightarrow> string \<Rightarrow> proc_result"

subsection \<open>\<open>self_check\<close>\<close>

text \<open>
  \<open>load_script_hash\<close>: the stripped text of the digest file, the empty string when the
  file does not exist, \<open>None\<close> when another error leaves the function.
\<close>

definition load_script_hash :: "hash_file \<Rightarrow> string option" where
  "load_script_hash file =
     (case file of
        NoHashFile \<Rightarrow> Some []
      | HashFile text \<Rightarrow> Some (py_strip text)
      | HashFileError \<Rightarrow> None)"

text \<open>
  The result: the effects, the digest file afterwards, and the boolean returned
  (\<open>None\<close> when an exception leaves the function: the script or the digest file cannot
  be read, the digest file cannot be written, or \<open>input\<close> raises).
\<close>

definition self_check :: "env \<Rightarrow> event list \<times> hash_file \<times> bool option" where
  "self_check e =
     (case calculate_file_hash e of
        None \<Rightarrow> ([], stored_hash e, None)
      | Some current_hash \<Rightarrow>
     (case load_script_hash (stored_hash e) of
        None \<Rightarrow> ([], stored_hash e, None)
      | Some saved_hash \<Rightarrow>
          if saved_hash = [] then
            (if hash_writable e then
               ([Print ''This appears to be the first run of the script.'',
                 SaveHash current_hash],
                HashFile current_hash, Some True)
             else
               ([Print ''This appears to be the first run of the script.''],
                stored_hash e, None))
          else if current_hash \<noteq> saved_hash then
            (case continue_answer e of
               None \<Rightarrow>
                 ([Print ''Warning: The script has been modified since it was last run.'',
                   Prompt ''Do you want to continue anyway? (y/n): ''],
                  stored_hash e, None)
             | Some user_input \<Rightarrow>
                 if py_lower user_input = ''y'' then
                   (if hash_writable e then
                      ([Print ''Warning: The script has been modified since it was last run.'',
                        Prompt ''Do you want to continue anyway? (y/n): '',
                        SaveHash current_hash],
                       HashFile current_hash, Some True)
                    else
                      ([Print ''Warning: The script has been modified since it was last run.'',
                        Prompt ''Do you want to continue anyway? (y/n): ''],
                       stored_hash e, None))
                 else
                   ([Print ''Warning: The script has been modified since it was last run.'',
                     Prompt ''Do you want to continue anyway? (y/n): ''],
                    stored_hash e, Some False))
          else ([], stored_hash e, Some True)))"

subsection \<open>\<open>main\<close>\<close>

text \<open>
  \<open>check_python_installation\<close>: \<open>None\<close> when an exception other than the two it
  catches leaves it.
\<close>

definition check_python_installation :: "proc_result \<Rightarrow> bool option" where
  "check_python_installation r =
     (case r of
        Exited out \<Rightarrow> Some True
      | CalledProcessError err \<Rightarrow> Some False
      | ProcFileNotFound \<Rightarrow> Some False
      | ProcRaised \<Rightarrow> None)"

definition get_python_download_instructions :: "string \<Rightarrow> string" where
  "get_python_download_instructions sys =
     (let system = py_lower sys in
      if system = ''windows'' then
        ''Download Python from https://www.python.org/downloads/windows/''
      else if system = ''darwin'' then
        ''Download Python from https://www.python.org/downloads/mac-osx/''
      else if system = ''linux'' then
        ''Use your distribution'' @ [CHR 0x27] @
        ''s package manager to install Python, or visit https://www.python.org/downloads/source/''
      else
        ''Visit https://www.python.org/downloads/ to download Python for your operating system.'')"

text \<open>
  How the loop over the requirements ends: it runs to its end, it returns after a
  rollback, or an exception leaves it.
\<close>

datatype loop_end = Finished | RolledBack | Raised

text \<open>
  The rollback, \<open>for installed_package in installed_packages\<close>: its effects, and
  whether it ran to its end (\<open>False\<close> when an exception left \<open>uninstall_package\<close>).
\<close>

fun rollback :: "env \<Rightarrow> nat \<Rightarrow> string list \<Rightarrow> event list \<times> bool" where
  "rollback e j [] = ([], True)"
| "rollback e j (installed_package # rest) =
     (case uninstall_package (pip_uninstall e j installed_package) installed_package of
        (evs, False) \<Rightarrow> (evs, False)
      | (evs, True) \<Rightarrow>
          (case rollback e (Suc j) rest of (evs', ok) \<Rightarrow> (evs @ evs', ok)))"

text \<open>
  The loop \<open>for package in requirements\<close>, from the requirement at position \<open>k\<close>,
  with the install record \<open>installed_packages\<close> built so far. It returns the effects,
  the install record at the end, and how it ended.
\<close>

fun install_loop ::
  "env \<Rightarrow> nat \<Rightarrow> string list \<Rightarrow> string list \<Rightarrow> event list \<times> string list \<times> loop_end" where
  "install_loop e k [] installed_packages = ([], installed_packages, Finished)"
| "install_loop e k (package # rest) installed_packages =
     (if \<not> validate_package_name package then
        (case install_loop e (Suc k) rest installed_packages of
           (evs, r) \<Rightarrow> (Print (''Invalid package name: '' @ package @ ''. Skipping.'') # evs, r))
      else
        (case install_package (pip_install e k package) of
           None \<Rightarrow> ([PipInstall package], installed_packages, Raised)
         | Some (True, output) \<Rightarrow>
             (case verify_installation (import_module e k) (pip_show e k) package of
                (vs, None) \<Rightarrow>
                  ([PipInstall package, Print (''Successfully installed '' @ package)] @ vs,
                   installed_packages, Raised)
              | (vs, Some True) \<Rightarrow>
                  (case install_loop e (Suc k) rest (installed_packages @ [package]) of
                     (evs, r) \<Rightarrow>
                       ([PipInstall package, Print (''Successfully installed '' @ package)] @
                        vs @ [Print (''Verified installation of '' @ package)] @ evs, r))
              | (vs, Some False) \<Rightarrow>
                  (case install_loop e (Suc k) rest installed_packages of
                     (evs, r) \<Rightarrow>
                       ([PipInstall package, Print (''Successfully installed '' @ package)] @
                        vs @
                        [Print (''Warning: Failed to verify installation of '' @ package),
                         Print ''The package may still be installed correctly. Please check manually.''] @
                        evs, r)))
         | Some (False, output) \<Rightarrow>
             (let failed =
                [PipInstall package, Print (''Failed to install '' @ package),
                 Print (''Error: '' @ output),
                 Prompt ''Do you want to roll back the installations? (y/n): ''] in
              case rollback_answer e k of
                None \<Rightarrow> (failed, installed_packages, Raised)
              | Some answer \<Rightarrow>
                  if py_lower answer = ''y'' then
                    (case rollback e 0 installed_packages of
                       (us, True) \<Rightarrow>
                         (failed @ us @ [Print ''Rolled back installations.''],
                          installed_packages, RolledBack)
                     | (us, False) \<Rightarrow> (failed @ us, installed_packages, Raised))
                  else
                    (case install_loop e (Suc k) rest installed_packages of
                       (evs, r) \<Rightarrow> (failed @ evs, r)))))"

text \<open>How a run of \<open>main\<close> ends.\<close>

datatype exit =
    SelfCheckRefused
  | NoPython
  | NoRequirementsFile
  | NoPackages
  | Completed
  | RollbackDone
  | Uncaught

text \<open>
  \<open>main\<close>: the effects of the run in order, the digest file afterwards, and how the
  run ended (\<open>Uncaught\<close>: an exception left \<open>main\<close>).
\<close>

definition main :: "env \<Rightarrow> event list \<times> hash_file \<times> exit" where
  "main e =
     (case self_check e of
        (evs0, file', None) \<Rightarrow> (evs0, file', Uncaught)
      | (evs0, file', Some False) \<Rightarrow>
          (evs0 @ [Print ''Exiting for security reasons.''], file', SelfCheckRefused)
      | (evs0, file', Some True) \<Rightarrow>
     (case check_python_installation (python_version e) of
        None \<Rightarrow> (evs0 @ [PythonVersion], file', Uncaught)
      | Some False \<Rightarrow>
          (evs0 @ [PythonVersion,
                   Print ''Error: Python is not installed or not accessible.'',
                   Print (get_python_download_instructions (platform_system e))],
           file', NoPython)
      | Some True \<Rightarrow>
          if \<not> requirements_exists e then
            (evs0 @ [PythonVersion,
                     Print ''Error: requirements.txt not found in the current directory.''],
             file', NoRequirementsFile)
          else
            (case read_requirements (requirements_file e) of
               (evs1, None) \<Rightarrow> (evs0 @ [PythonVersion] @ evs1, file', Uncaught)
             | (evs1, Some requirements) \<Rightarrow>
                 if requirements = [] then
                   (evs0 @ [PythonVersion] @ evs1 @ [Print ''No packages to install.''],
                    file', NoPackages)
                 else
                   (case install_loop e 0 requirements [] of
                      (evs2, installed_packages, Finished) \<Rightarrow>
                        (evs0 @ [PythonVersion] @ evs1 @ [Print ''Installing packages...''] @
                         evs2 @
                         [Print ''Installation process completed.'',
                          Print (''The hash file is to check if the install script hasn'' @
                                 [CHR 0x27] @
                                 ''t been modified to prevent malicious use of the install script from the user or external parties.'')],
                         file', Completed)
                    | (evs2, installed_packages, RolledBack) \<Rightarrow>
                        (evs0 @ [PythonVersion] @ evs1 @ [Print ''Installing packages...''] @
                         evs2, file', RollbackDone)
                    | (evs2, installed_packages, Raised) \<Rightarrow>
                        (evs0 @ [PythonVersion] @ evs1 @ [Print ''Installing packages...''] @
                         evs2, file', Uncaught)))))"

subsection \<open>Predicates on effects, and the vocabulary of the claims\<close>

fun package_operation :: "event \<Rightarrow> bool" where
  "package_operation (PipInstall p) = True"
| "package_operation (PipUninstall p) = True"
| "package_operation (PipShow p) = True"
| "package_operation ev = False"

fun is_prompt :: "event \<Rightarrow> bool" where
  "is_prompt (Prompt t) = True"
| "is_prompt ev = False"


text \<open>
  The comparison operators the pattern admits, without \<open>==\<close>.
\<close>

definition other_operators :: "string list" where
  "other_operators = [''<'', ''>'', ''='', ''!'', ''<='', ''>='', ''!='']"

text \<open>
  A requirement went through all three steps of the loop body at position \<open>k\<close>: it was
  accepted by the validation, its installation returned success, and its verification
  returned \<open>True\<close>.
\<close>

fun exited :: "proc_result \<Rightarrow> bool" where
  "exited (Exited out) = True"
| "exited r = False"

definition succeeded :: "env \<Rightarrow> nat \<Rightarrow> string \<Rightarrow> bool" where
  "succeeded e k package =
     (validate_package_name package \<and> exited (pip_install e k package) \<and>
      snd (verify_installation (import_module e k) (pip_show e k) package) = Some True)"

text \<open>
  An uninstall at position \<open>j\<close> of the install record returns or fails the way
  \<open>uninstall_package\<close> handles.
\<close>

definition uninstall_handled :: "env \<Rightarrow> nat \<Rightarrow> string \<Rightarrow> bool" where
  "uninstall_handled e j package =
     (case pip_uninstall e j package of
        Exited out \<Rightarrow> True
      | CalledProcessError err \<Rightarrow> True
      | ProcFileNotFound \<Rightarrow> False
      | ProcRaised \<Rightarrow> False)"

text \<open>
  Surroundings for the concrete runs below: a first run, with a manifest of three
  requirements, a comment, a blank line of no-break spaces and a line that ends in
  \<open>\r\n\<close>. \<open>alpha\<close> installs and imports; \<open>gamma>=1.0\<close> installs but no import of
  it works and the metadata query fails; \<open>beta\<close> does not install; the user answers
  \<open>Y\<close> to the rollback prompt, and every uninstall fails with \<open>CalledProcessError\<close>.
\<close>

definition demo_manifest :: string where
  "demo_manifest =
     ''alpha'' @ [CHR 0xA0, CHR 0x0D, CHR 0x0A] @ ''# pinned'' @ [CHR 0x0A] @
     [CHR 0xA0, CHR 0x85, CHR 0x0A] @ ''  gamma>=1.0'' @ [CHR 0x0A] @ ''beta''"

text \<open>
  A manifest with every kind of line: a requirement whose line ends in \<open>\r\n\<close>, a
  comment, a blank line of a tab and a no-break space, a requirement with blanks inside
  and around it whose line ends in a lone \<open>\r\<close>, a \<open>#\<close> after leading blanks
  (not a comment line), an empty line, and a last line with no line end.
\<close>

definition sample_manifest :: string where
  "sample_manifest =
     ''alpha'' @ [CHR 0x0D, CHR 0x0A] @ ''#beta'' @ [CHR 0x0A] @
     [CHR 0x09, CHR 0xA0, CHR 0x0A] @ '' delta >= 2 '' @ [CHR 0x0D] @
     ''  # note'' @ [CHR 0x0A] @ [CHR 0x0A] @ ''omega''"

definition demo_env :: env where
  "demo_env =
     \<lparr>calculate_file_hash = Some ''0a1b'', stored_hash = NoHashFile, hash_writable = True,
      continue_answer = Some ''n'',
      python_version = Exited ''Python 3.12.1'', platform_system = ''Linux'',
      requirements_exists = True,
      requirements_file = Text demo_manifest,
      pip_install =
        (\<lambda>k p. if p = ''beta'' then CalledProcessError ''not found'' else Exited ''ok''),
      import_module = (\<lambda>k m. if m = ''alpha'' then Imported else ImportError),
      pip_show = (\<lambda>k m. CalledProcessError []),
      rollback_answer = (\<lambda>k. Some ''Y''),
      pip_uninstall = (\<lambda>j p. CalledProcessError ''busy'')\<rparr>"

subsection \<open>The grammar of requirement strings, in the words of the specification\<close>

text \<open>
  The languages of the regular expressions: what a match of \<open>r\<close> can consume.
\<close>

definition conc :: "string set \<Rightarrow> string set \<Rightarrow> string set" where
  "conc A B = {u @ v |u v. u \<in> A \<and> v \<in> B}"

inductive_set star :: "string set \<Rightarrow> string set" for A :: "string set" where
  star_empty: "[] \<in> star A"
| star_more: "u \<in> A \<Longrightarrow> v \<in> star A \<Longrightarrow> u @ v \<in> star A"

fun lang :: "regex \<Rightarrow> string set" where
  "lang Empty = {}"
| "lang Eps = {[]}"
| "lang (Class p) = {[c] |c. p c}"
| "lang (Seq r s) = conc (lang r) (lang s)"
| "lang (Alt r s) = lang r \<union> lang s"
| "lang (Opt r) = insert [] (lang r)"
| "lang (Star r) = star (lang r)"
| "lang (Plus r) = conc (lang r) (star (lang r))"

text \<open>
  The comparison operators of the pattern \<open>[<>=!]=?\<close>, and the allowed grammar: a
  non-empty name of alphanumerics, \<open>.\<close>, \<open>-\<close> and \<open>_\<close>, optionally followed by one
  comparison operator and a non-empty version of the same characters.
\<close>

definition operators :: "string list" where
  "operators = [''<'', ''>'', ''='', ''!'', ''<='', ''>='', ''=='', ''!='']"

definition requirement_grammar :: "string \<Rightarrow> bool" where
  "requirement_grammar s =
     ((s \<noteq> [] \<and> list_all name_char s) \<or>
      (\<exists>name op version. s = name @ op @ version \<and>
         name \<noteq> [] \<and> list_all name_char name \<and> op \<in> set operators \<and>
         version \<noteq> [] \<and> list_all name_char version))"

section \<open>Properties of \<open>validate_package_name\<close>\<close>

lemma nullable_lang: "nullable r \<longleftrightarrow> [] \<in> lang r"
  by (induction r) (auto simp: conc_def intro: star.intros)

lemma conc_Cons:
  "c # w \<in> conc A B \<longleftrightarrow>
     (\<exists>u v. w = u @ v \<and> c # u \<in> A \<and> v \<in> B) \<or> ([] \<in> A \<and> c # w \<in> B)"
proof
  assume "c # w \<in> conc A B"
  then obtain u v where uv: "c # w = u @ v" "u \<in> A" "v \<in> B" by (auto simp: conc_def)
  show "(\<exists>u v. w = u @ v \<and> c # u \<in> A \<and> v \<in> B) \<or> ([] \<in> A \<and> c # w \<in> B)"
  proof (cases u)
    case Nil
    with uv show ?thesis by simp
  next
    case (Cons d u')
    with uv have "w = u' @ v" "c # u' \<in> A" by simp_all
    with uv(3) show ?thesis by blast
  qed
next
  assume "(\<exists>u v. w = u @ v \<and> c # u \<in> A \<and> v \<in> B) \<or> ([] \<in> A \<and> c # w \<in> B)"
  then show "c # w \<in> conc A B"
  proof
    assume "\<exists>u v. w = u @ v \<and> c # u \<in> A \<and> v \<in> B"
    then obtain u v where "w = u @ v" "c # u \<in> A" "v \<in> B" by blast
    then have "c # w = (c # u) @ v" by simp
    with \<open>c # u \<in> A\<close> \<open>v \<in> B\<close> show ?thesis unfolding conc_def by blast
  next
    assume "[] \<in> A \<and> c # w \<in> B"
    then have "c # w = [] @ (c # w)" "[] \<in> A" "c # w \<in> B" by simp_all
    then show ?thesis unfolding conc_def by blast
  qed
qed

lemma star_Cons_split:
  "s \<in> star A \<Longrightarrow> s = c # w \<Longrightarrow> \<exists>u v. w = u @ v \<and> c # u \<in> A \<and> v \<in> star A"
proof (induction s rule: star.induct)
  case star_empty
  then show ?case by simp
next
  case (star_more u v)
  show ?case
  proof (cases u)
    case Nil
    with star_more show ?thesis by simp
  next
    case (Cons d u')
    with star_more.prems have "d = c" "w = u' @ v" by simp_all
    with Cons star_more.hyps show ?thesis by blast
  qed
qed

lemma star_Cons:
  "c # w \<in> star A \<longleftrightarrow> (\<exists>u v. w = u @ v \<and> c # u \<in> A \<and> v \<in> star A)"
proof
  assume "c # w \<in> star A"
  then show "\<exists>u v. w = u @ v \<and> c # u \<in> A \<and> v \<in> star A"
    using star_Cons_split by blast
next
  assume "\<exists>u v. w = u @ v \<and> c # u \<in> A \<and> v \<in> star A"
  then obtain u v where "w = u @ v" "c # u \<in> A" "v \<in> star A" by blast
  then show "c # w \<in> star A" using star_more [of "c # u" A v] by simp
qed

lemma lang_deriv: "w \<in> lang (deriv c r) \<longleftrightarrow> c # w \<in> lang r"
proof (induction r arbitrary: w)
  case (Seq r s)
  then show ?case
    by (auto simp: conc_Cons nullable_lang) (auto simp: conc_def)
next
  case (Star r)
  then show ?case by (auto simp: star_Cons) (auto simp: conc_def)
next
  case (Plus r)
  have "c # w \<in> conc (lang r) (star (lang r)) \<longleftrightarrow>
      (\<exists>u v. w = u @ v \<and> c # u \<in> lang r \<and> v \<in> star (lang r))"
    using star_more [of "[]" "lang r"] by (auto simp: conc_Cons star_Cons)
  with Plus show ?case by (auto simp: conc_def)
qed auto

lemma matches_lang: "matches r s \<longleftrightarrow> s \<in> lang r"
  by (induction s arbitrary: r) (simp_all add: nullable_lang lang_deriv)

lemma star_class: "star (lang (Class p)) = {s. list_all p s}"
proof (intro set_eqI iffI)
  fix s assume "s \<in> star (lang (Class p))"
  then show "s \<in> {s. list_all p s}"
    by (induction rule: star.induct) auto
next
  fix s assume "s \<in> {s. list_all p s}"
  then have "list_all p s" by simp
  then show "s \<in> star (lang (Class p))"
  proof (induction s)
    case Nil
    show ?case by (rule star_empty)
  next
    case (Cons c cs)
    then have "[c] \<in> lang (Class p)" and "cs \<in> star (lang (Class p))" by simp_all
    then have "[c] @ cs \<in> star (lang (Class p))" by (rule star_more)
    then show ?case by simp
  qed
qed

lemma plus_class: "lang (Plus (Class p)) = {s. s \<noteq> [] \<and> list_all p s}"
proof -
  have "lang (Plus (Class p)) = conc (lang (Class p)) {s. list_all p s}"
    by (simp only: lang.simps(8) star_class)
  also have "\<dots> = {s. s \<noteq> [] \<and> list_all p s}"
  proof (intro set_eqI iffI)
    fix s assume "s \<in> conc (lang (Class p)) {s. list_all p s}"
    then show "s \<in> {s. s \<noteq> [] \<and> list_all p s}"
      by (auto simp: conc_def)
  next
    fix s assume "s \<in> {s. s \<noteq> [] \<and> list_all p s}"
    then obtain c cs where s: "s = c # cs" "p c" "list_all p cs" by (cases s) auto
    then have "[c] \<in> lang (Class p)" "cs \<in> {s. list_all p s}" by simp_all
    then have "[c] @ cs \<in> conc (lang (Class p)) {s. list_all p s}"
      unfolding conc_def by blast
    then show "s \<in> conc (lang (Class p)) {s. list_all p s}" using s by simp
  qed
  finally show ?thesis .
qed

lemma conc_insert: "conc (insert a A) B = (\<lambda>v. a @ v) ` B \<union> conc A B"
  by (auto simp: conc_def)

lemma conc_empty: "conc {} B = {}"
  by (simp add: conc_def)

lemma operator_lang:
  "lang (Seq (Class op_char) (Opt (Class (\<lambda>c. c = CHR ''='')))) = set operators"
proof -
  have ops: "lang (Class op_char) = {''<'', ''>'', ''='', ''!''}"
    by (auto simp: op_char_def)
  have eq: "lang (Opt (Class (\<lambda>c. c = CHR ''=''))) = {[], ''=''}"
    by auto
  have "lang (Seq (Class op_char) (Opt (Class (\<lambda>c. c = CHR ''='')))) =
      conc {''<'', ''>'', ''='', ''!''} {[], ''=''}"
    using ops eq by (simp only: lang.simps(4))
  also have "\<dots> = set operators"
    by (simp add: conc_insert conc_empty operators_def insert_commute)
  finally show ?thesis .
qed

lemma pattern_lang: "s \<in> lang requirement_pattern \<longleftrightarrow> requirement_grammar s"
proof -
  let ?N = "{s. s \<noteq> [] \<and> list_all name_char s}"
  have tail: "lang (Seq (Seq (Class op_char) (Opt (Class (\<lambda>c. c = CHR ''=''))))
      (Plus (Class name_char))) = conc (set operators) ?N"
    using operator_lang plus_class [of name_char]
    by (simp only: lang.simps(4))
  have "lang requirement_pattern = conc ?N (insert [] (conc (set operators) ?N))"
    unfolding requirement_pattern_def
    using tail plus_class [of name_char]
    by (simp only: lang.simps(4) lang.simps(6))
  then show ?thesis
    unfolding requirement_grammar_def conc_def by auto
qed

lemma matches_requirement_pattern:
  "matches requirement_pattern s \<longleftrightarrow> requirement_grammar s"
  by (simp add: matches_lang pattern_lang)

lemma validate_package_name_iff:
  "validate_package_name s \<longleftrightarrow>
     requirement_grammar s \<or> (\<exists>w. s = w @ [CHR 0x0A] \<and> requirement_grammar w)"
proof -
  have "(s \<noteq> [] \<and> last s = CHR 0x0A \<and> requirement_grammar (butlast s)) \<longleftrightarrow>
      (\<exists>w. s = w @ [CHR 0x0A] \<and> requirement_grammar w)"
    by (metis append_butlast_last_id butlast_snoc last_snoc snoc_eq_iff_butlast)
  then show ?thesis
    by (simp add: validate_package_name_def matches_requirement_pattern)
qed

lemma grammar_alphabet:
  assumes "requirement_grammar s" and "c \<in> set s"
  shows "name_char c \<or> op_char c"
proof -
  have op: "\<And>o' d. o' \<in> set operators \<Longrightarrow> d \<in> set o' \<Longrightarrow> op_char d"
    by (auto simp: operators_def op_char_def)
  from assms show ?thesis
    unfolding requirement_grammar_def
    by (auto simp: list_all_iff dest: op)
qed

lemma validate_accepts_grammar:
  "requirement_grammar s \<Longrightarrow> validate_package_name s"
  by (simp add: validate_package_name_iff)

lemma validate_rejects_outside:
  assumes "c \<in> set s" and "\<not> name_char c" and "\<not> op_char c"
    and "c \<noteq> CHR 0x0A \<or> c \<in> set (butlast s)"
  shows "\<not> validate_package_name s"
proof
  assume "validate_package_name s"
  then consider "requirement_grammar s" | w where "s = w @ [CHR 0x0A]" "requirement_grammar w"
    by (auto simp: validate_package_name_iff)
  then show False
  proof cases
    case 1
    with assms(1-3) grammar_alphabet show False by blast
  next
    case 2
    then have "c \<in> set w" using assms(1,4) by auto
    with 2(2) assms(2,3) grammar_alphabet show False by blast
  qed
qed

lemma requirement_lines_stripped:
  "r \<in> set (requirement_lines ls) \<Longrightarrow> r \<noteq> [] \<and> \<not> py_isspace (last r)"
proof (induction ls)
  case Nil
  then show ?case by simp
next
  case (Cons l ls)
  have strip: "py_strip l \<noteq> [] \<Longrightarrow> \<not> py_isspace (last (py_strip l))"
  proof -
    assume n: "py_strip l \<noteq> []"
    let ?t = "dropWhile py_isspace (rev (dropWhile py_isspace l))"
    have t: "?t \<noteq> []" using n by (simp add: py_strip_def)
    then have "\<not> py_isspace (hd ?t)" by (rule hd_dropWhile)
    moreover have "last (py_strip l) = hd ?t"
      using t by (simp add: py_strip_def last_rev)
    ultimately show ?thesis by simp
  qed
  from Cons show ?case
    by (auto simp: strip split: if_splits)
qed

lemma validate_stripped:
  assumes "r \<noteq> []" and "\<not> py_isspace (last r)"
  shows "validate_package_name r \<longleftrightarrow> requirement_grammar r"
proof -
  have "last r \<noteq> CHR 0x0A" using assms(2) by (auto simp: py_isspace_def)
  then have "\<not> (\<exists>w. r = w @ [CHR 0x0A])" by auto
  then show ?thesis by (simp add: validate_package_name_iff)
qed


section \<open>Evaluation of the concrete runs\<close>

lemma py_lower_char_y: "py_lower_char c = CHR ''y'' \<longleftrightarrow> c = CHR ''y'' \<or> c = CHR ''Y''"
proof -
  have inj: "\<And>m. m < 256 \<Longrightarrow> (char_of m = CHR ''y'') = (m = (121::nat))"
  proof -
    fix m :: nat assume m: "m < 256"
    have "(char_of m = CHR ''y'') = (of_char (char_of m :: char) = (of_char (CHR ''y'') :: nat))"
      by (metis of_char_eq_iff)
    also have "\<dots> = (m = 121)" using m by simp
    finally show "(char_of m = CHR ''y'') = (m = (121::nat))" .
  qed
  have lt: "(of_char c :: nat) < 256" by simp
  have y: "(of_char c = (121::nat)) = (c = CHR ''y'')"
    by (metis char_of_char of_char_of of_char_eq_iff inj lt mod_less)
  have Y: "(of_char c = (89::nat)) = (c = CHR ''Y'')"
  proof -
    have "(of_char c = (89::nat)) = (of_char c = (of_char (CHR ''Y'') :: nat))" by simp
    then show ?thesis by (simp only: of_char_eq_iff)
  qed
  show ?thesis
  proof (cases "(65 \<le> (of_char c :: nat) \<and> (of_char c :: nat) \<le> 90) \<or>
      (192 \<le> (of_char c :: nat) \<and> (of_char c :: nat) \<le> 222 \<and> (of_char c :: nat) \<noteq> 215)")
    case True
    then have lo: "py_lower_char c = char_of ((of_char c :: nat) + 32)"
      by (simp add: py_lower_char_def Let_def)
    have "(of_char c :: nat) + 32 < 256" using True lt by arith
    then have "(py_lower_char c = CHR ''y'') = ((of_char c :: nat) + 32 = 121)"
      using inj lo by simp
    also have "\<dots> = ((of_char c :: nat) = 89)" by arith
    also have "\<dots> = (c = CHR ''Y'')" by (rule Y)
    finally show ?thesis using True y by auto
  next
    case False
    then have "py_lower_char c = c" by (auto simp add: py_lower_char_def Let_def)
    moreover have "c \<noteq> CHR ''Y''" using False Y by auto
    ultimately show ?thesis by simp
  qed
qed

lemma py_lower_y: "py_lower s = ''y'' \<longleftrightarrow> s = ''y'' \<or> s = ''Y''"
proof (cases s)
  case Nil
  then show ?thesis by (simp add: py_lower_def)
next
  case (Cons c cs)
  then show ?thesis by (cases cs) (auto simp: py_lower_def py_lower_char_y)
qed

lemmas eval_simps =
  demo_env_def demo_manifest_def validate_package_name_def requirement_pattern_def
  name_char_def op_char_def verify_installation_def package_name_of_def variations_of_def
  py_split_def py_replace_def py_startswith_def Let_def main_def self_check_def
  load_script_hash_def read_requirements_def file_lines_def py_strip_def py_isspace_def
  py_lower_y uninstall_package_def install_package_def check_python_installation_def
  succeeded_def uninstall_handled_def blank_line_def comment_line_def

section \<open>Properties of \<open>read_requirements\<close>\<close>

lemma requirement_lines_append:
  "requirement_lines (xs @ ys) = requirement_lines xs @ requirement_lines ys"
  by (induction xs) auto

lemma requirement_lines_filter:
  "requirement_lines ls =
     map py_strip (filter (\<lambda>l. \<not> blank_line l \<and> \<not> comment_line l) ls)"
  by (induction ls) (auto simp: blank_line_def comment_line_def)

text \<open>
  C9. Reading the manifest ignores every blank line and every line that starts with
  \<open>#\<close>, and returns every other line, stripped, in the order of the file: wherever a
  line stands in the file, a blank or comment line contributes nothing to the result and
  any other line contributes exactly its stripped text at its place; and the function
  returns, with no effect, the stripped lines of the text that are neither blank nor
  comment lines. (Blank is what \<open>str.strip\<close> empties; the comment test is made on the
  line as it stands in the file, so a \<open>#\<close> after leading blanks does not make a
  comment line.)
\<close>

theorem read_requirements_lines:
  "((blank_line l \<or> comment_line l) \<longrightarrow>
      requirement_lines (before @ [l] @ after) = requirement_lines (before @ after)) \<and>
   (\<not> blank_line l \<and> \<not> comment_line l \<longrightarrow>
      requirement_lines (before @ [l] @ after) =
        requirement_lines before @ [py_strip l] @ requirement_lines after) \<and>
   read_requirements (Text text) =
     ([], Some (map py_strip
                  (filter (\<lambda>l. \<not> blank_line l \<and> \<not> comment_line l) (file_lines text))))"
proof -
  have "requirement_lines [l] = (if blank_line l \<or> comment_line l then [] else [py_strip l])"
    by (simp add: blank_line_def comment_line_def)
  then have "requirement_lines (before @ [l] @ after) =
      requirement_lines before @
      (if blank_line l \<or> comment_line l then [] else [py_strip l]) @ requirement_lines after"
    by (simp only: requirement_lines_append)
  moreover have "read_requirements (Text text) =
     ([], Some (map py_strip
                  (filter (\<lambda>l. \<not> blank_line l \<and> \<not> comment_line l) (file_lines text))))"
    by (simp add: read_requirements_def requirement_lines_filter)
  ultimately show ?thesis
    by (simp add: requirement_lines_append)
qed

text \<open>
  The theorem on the lines of the sample manifest: a comment line and a blank line of a
  tab and a no-break space are ignored, a line with blanks inside and around it is
  returned with the inner blanks kept, and the whole manifest, with its three kinds of
  line end, gives four requirements (the last but one is the line whose \<open>#\<close> comes
  after blanks).
\<close>

theorem read_requirements_lines_witness:
  "comment_line (''#beta'' @ [CHR 0x0A]) \<and>
   requirement_lines ([''alpha'' @ [CHR 0x0A]] @ [''#beta'' @ [CHR 0x0A]] @ [''omega'']) =
     requirement_lines ([''alpha'' @ [CHR 0x0A]] @ [''omega'']) \<and>
   blank_line [CHR 0x09, CHR 0xA0, CHR 0x0A] \<and>
   requirement_lines ([''alpha'' @ [CHR 0x0A]] @ [[CHR 0x09, CHR 0xA0, CHR 0x0A]] @ [''omega'']) =
     requirement_lines ([''alpha'' @ [CHR 0x0A]] @ [''omega'']) \<and>
   py_strip ('' delta >= 2 '' @ [CHR 0x0A]) = ''delta >= 2'' \<and>
   requirement_lines ([''alpha'' @ [CHR 0x0A]] @ ['' delta >= 2 '' @ [CHR 0x0A]] @ [''omega'']) =
     requirement_lines [''alpha'' @ [CHR 0x0A]] @
     [py_strip ('' delta >= 2 '' @ [CHR 0x0A])] @ requirement_lines [''omega''] \<and>
   file_lines sample_manifest =
     [''alpha'' @ [CHR 0x0A], ''#beta'' @ [CHR 0x0A], [CHR 0x09, CHR 0xA0, CHR 0x0A],
      '' delta >= 2 '' @ [CHR 0x0A], ''  # note'' @ [CHR 0x0A], [CHR 0x0A], ''omega''] \<and>
   read_requirements (Text sample_manifest) =
     ([], Some [''alpha'', ''delta >= 2'', ''# note'', ''omega''])"
proof (intro conjI)
  show c: "comment_line (''#beta'' @ [CHR 0x0A])"
    by (simp add: comment_line_def py_startswith_def)
  show "requirement_lines ([''alpha'' @ [CHR 0x0A]] @ [''#beta'' @ [CHR 0x0A]] @ [''omega'']) =
     requirement_lines ([''alpha'' @ [CHR 0x0A]] @ [''omega''])"
    by (rule mp [OF conjunct1 [OF read_requirements_lines]]) (rule disjI2, rule c)
  show b: "blank_line [CHR 0x09, CHR 0xA0, CHR 0x0A]"
    by (simp add: blank_line_def py_strip_def py_isspace_def)
  show "requirement_lines ([''alpha'' @ [CHR 0x0A]] @ [[CHR 0x09, CHR 0xA0, CHR 0x0A]] @ [''omega'']) =
     requirement_lines ([''alpha'' @ [CHR 0x0A]] @ [''omega''])"
    by (rule mp [OF conjunct1 [OF read_requirements_lines]]) (rule disjI1, rule b)
  show "py_strip ('' delta >= 2 '' @ [CHR 0x0A]) = ''delta >= 2''"
    by (simp add: py_strip_def py_isspace_def)
  have r: "\<not> blank_line ('' delta >= 2 '' @ [CHR 0x0A]) \<and>
           \<not> comment_line ('' delta >= 2 '' @ [CHR 0x0A])"
    by (simp add: blank_line_def comment_line_def py_startswith_def py_strip_def py_isspace_def)
  show "requirement_lines ([''alpha'' @ [CHR 0x0A]] @ ['' delta >= 2 '' @ [CHR 0x0A]] @ [''omega'']) =
     requirement_lines [''alpha'' @ [CHR 0x0A]] @
     [py_strip ('' delta >= 2 '' @ [CHR 0x0A])] @ requirement_lines [''omega'']"
    by (rule mp [OF conjunct1 [OF conjunct2 [OF read_requirements_lines]]]) (rule r)
  show "file_lines sample_manifest =
     [''alpha'' @ [CHR 0x0A], ''#beta'' @ [CHR 0x0A], [CHR 0x09, CHR 0xA0, CHR 0x0A],
      '' delta >= 2 '' @ [CHR 0x0A], ''  # note'' @ [CHR 0x0A], [CHR 0x0A], ''omega'']"
    by (simp add: file_lines_def sample_manifest_def)
  have f: "([], Some (map py_strip (filter (\<lambda>l. \<not> blank_line l \<and> \<not> comment_line l)
       (file_lines sample_manifest)))) =
       (([], Some [''alpha'', ''delta >= 2'', ''# note'', ''omega''])
        :: event list \<times> string list option)"
    by (simp add: file_lines_def sample_manifest_def blank_line_def comment_line_def
        py_startswith_def py_strip_def py_isspace_def)
  show "read_requirements (Text sample_manifest) =
     ([], Some [''alpha'', ''delta >= 2'', ''# note'', ''omega''])"
    unfolding conjunct2 [OF conjunct2 [OF read_requirements_lines]]
    by (rule f)
qed

section \<open>Properties of \<open>verify_installation\<close>\<close>

lemma split_from_nonempty: "split_from sep acc s \<noteq> []"
  by (induction sep acc s rule: split_from.induct) auto

lemma split_from_no_sep:
  "\<not> py_contains sep s \<Longrightarrow> split_from sep acc s = [acc @ s]"
  by (induction s arbitrary: acc) simp_all

lemma py_split_absent: "\<not> py_contains sep s \<Longrightarrow> py_split s sep = [s]"
  by (simp add: py_split_def split_from_no_sep)

lemma py_contains_append_name:
  "list_all name_char name \<Longrightarrow> py_contains ''=='' (name @ t) = py_contains ''=='' t"
proof (induction name)
  case Nil
  then show ?case by simp
next
  case (Cons c cs)
  then have "c \<noteq> CHR ''=''" by (auto simp: name_char_def)
  with Cons show ?case by (simp add: py_startswith_def)
qed

lemma no_eqeq_in_name:
  "list_all name_char v \<Longrightarrow> \<not> py_contains ''=='' v"
  using py_contains_append_name [of v "[]"] by simp

lemma no_eqeq_after_eq:
  "list_all name_char v \<Longrightarrow> \<not> py_contains ''=='' (CHR ''='' # v)"
proof (cases v)
  case Nil
  then show ?thesis by (simp add: py_startswith_def)
next
  case (Cons c cs)
  assume v: "list_all name_char v"
  with Cons have "c \<noteq> CHR ''=''" by (auto simp: name_char_def)
  with Cons no_eqeq_in_name [OF v] show ?thesis by (simp add: py_startswith_def)
qed

lemma no_eqeq_in_constraint:
  assumes "list_all name_char name" "list_all name_char version" "op \<in> set other_operators"
  shows "\<not> py_contains ''=='' (name @ op @ version)"
proof -
  have "\<not> py_contains ''=='' (op @ version)"
    using assms(3) no_eqeq_in_name [OF assms(2)] no_eqeq_after_eq [OF assms(2)]
    by (auto simp: other_operators_def py_startswith_def)
  then show ?thesis using py_contains_append_name [OF assms(1)] by simp
qed

lemma py_contains_single: "py_contains [c] s = (c \<in> set s)"
  by (induction s) (auto simp: py_startswith_def)

lemma py_replace_absent: "old \<notin> set s \<Longrightarrow> py_replace s old new = s"
  unfolding py_replace_def by (induction s) auto

lemma variations_no_hyphen:
  "CHR ''-'' \<notin> set s \<Longrightarrow> variations_of s = [s, s, s]"
  by (simp add: variations_of_def py_replace_absent py_split_absent py_contains_single)

lemma try_variations_subset:
  "set (fst (try_variations imp vs)) \<subseteq> ImportModule ` set vs"
  by (induction vs) (auto split: import_result.splits prod.splits)

lemma try_variations_all_fail:
  "(\<And>m. imp m = ImportError) \<Longrightarrow> try_variations imp vs = (map ImportModule vs, ImportError)"
  by (induction vs) auto

lemma verify_installation_head:
  "\<exists>evs. fst (verify_installation imp run_show package) =
     ImportModule (package_name_of package) # evs"
  by (cases "imp (package_name_of package)";
      cases "try_variations imp (variations_of (package_name_of package))";
      cases "snd (try_variations imp (variations_of (package_name_of package)))";
      simp add: verify_installation_def Let_def)

lemma verify_installation_events:
  "set (fst (verify_installation imp run_show package)) \<subseteq>
     {ImportModule (package_name_of package), PipShow (package_name_of package)} \<union>
     ImportModule ` set (variations_of (package_name_of package))"
proof -
  obtain evs r where tv:
    "try_variations imp (variations_of (package_name_of package)) = (evs, r)"
    by (cases "try_variations imp (variations_of (package_name_of package))")
  then have "set evs \<subseteq> ImportModule ` set (variations_of (package_name_of package))"
    using try_variations_subset [of imp "variations_of (package_name_of package)"] by simp
  then show ?thesis
    by (cases "imp (package_name_of package)"; cases r)
      (auto simp: verify_installation_def Let_def tv)
qed

lemma verify_installation_all_fail:
  "(\<And>m. imp m = ImportError) \<Longrightarrow>
   fst (verify_installation imp run_show package) =
     ImportModule (package_name_of package) #
     map ImportModule (variations_of (package_name_of package)) @
     [PipShow (package_name_of package)]"
  by (simp add: verify_installation_def Let_def try_variations_all_fail)

lemma split_from_name_eqeq:
  "list_all name_char name \<Longrightarrow>
   split_from ''=='' acc (name @ ''=='' @ t) = (acc @ name) # split_from ''=='' [] t"
proof (induction name arbitrary: acc)
  case Nil
  then show ?case by (simp add: py_startswith_def)
next
  case (Cons c cs)
  then have "c \<noteq> CHR ''=''" by (auto simp: name_char_def)
  with Cons show ?case by (simp add: py_startswith_def)
qed

text \<open>
  C10, as the code has it. The verifier strips the version constraint when the operator
  is \<open>==\<close>. For a requirement \<open>name op version\<close> with any other operator of the
  pattern, the whole constraint string is the name the verifier works from: it is the
  module name of the first import attempt and the only argument of the metadata query,
  and every further import attempt uses one of the three names derived from the whole
  string (hyphens replaced by underscores, what follows the last hyphen, hyphens
  deleted). Those three equal the whole string when it has no hyphen; when every import
  raises \<open>ImportError\<close> the attempts are exactly these four names in order, followed by
  the metadata query.
\<close>

theorem verify_keeps_other_constraints:
  assumes "list_all name_char name" and "list_all name_char version"
    and "op \<in> set other_operators" and "package = name @ op @ version"
  shows "package_name_of (name @ ''=='' @ version) = name \<and>
    package_name_of package = package \<and>
    (\<exists>evs. fst (verify_installation imp run_show package) = ImportModule package # evs) \<and>
    set (fst (verify_installation imp run_show package)) \<subseteq>
      {ImportModule package, PipShow package} \<union> ImportModule ` set (variations_of package) \<and>
    ((\<forall>m. imp m = ImportError) \<longrightarrow>
       fst (verify_installation imp run_show package) =
         ImportModule package # map ImportModule (variations_of package) @ [PipShow package]) \<and>
    (CHR ''-'' \<notin> set package \<longrightarrow> variations_of package = [package, package, package])"
proof -
  have eq: "package_name_of (name @ ''=='' @ version) = name"
    using split_from_name_eqeq [OF assms(1), of "[]" version]
    by (simp add: package_name_of_def py_split_def)
  have name: "package_name_of package = package"
    using no_eqeq_in_constraint [OF assms(1-3)] assms(4)
    by (simp add: package_name_of_def py_split_absent)
  show ?thesis
    using verify_installation_head [of imp run_show package]
      verify_installation_events [of imp run_show package]
      verify_installation_all_fail [of imp run_show package]
      variations_no_hyphen [of package] eq
    unfolding name by blast
qed

text \<open>
  The theorem at \<open>requests>=2.0\<close>, with every import failing: all four import attempts
  and the metadata query name the whole string, while \<open>requests==2.0\<close> is verified as
  \<open>requests\<close>.
\<close>

theorem verify_keeps_other_constraints_witness:
  "package_name_of ''requests==2.0'' = ''requests'' \<and>
   package_name_of ''requests>=2.0'' = ''requests>=2.0'' \<and>
   fst (verify_installation (\<lambda>m. ImportError) (\<lambda>m. CalledProcessError []) ''requests>=2.0'') =
     [ImportModule ''requests>=2.0'', ImportModule ''requests>=2.0'',
      ImportModule ''requests>=2.0'', ImportModule ''requests>=2.0'',
      PipShow ''requests>=2.0'']"
proof -
  have a: "list_all name_char ''requests''" by (simp add: name_char_def)
  have b: "list_all name_char ''2.0''" by (simp add: name_char_def)
  have c: "''>='' \<in> set other_operators" by (simp add: other_operators_def)
  have d: "''requests>=2.0'' = ''requests'' @ ''>='' @ ''2.0''" by simp
  have e: "CHR ''-'' \<notin> set ''requests>=2.0''" by simp
  show ?thesis
    using verify_keeps_other_constraints [OF a b c d, of "\<lambda>m. ImportError"
        "\<lambda>m. CalledProcessError []"] e
    by simp
qed

text \<open>
  The claim as stated fails at \<open>my-pkg>=1.0\<close>: with every import failing, the
  attempts are \<open>my-pkg>=1.0\<close>, \<open>my_pkg>=1.0\<close>, \<open>pkg>=1.0\<close> and \<open>mypkg>=1.0\<close>,
  so not every import attempt uses the entire constraint string.
\<close>

theorem verify_variations_counterexample:
  "fst (verify_installation (\<lambda>m. ImportError) (\<lambda>m. CalledProcessError []) ''my-pkg>=1.0'') =
     [ImportModule ''my-pkg>=1.0'', ImportModule ''my_pkg>=1.0'', ImportModule ''pkg>=1.0'',
      ImportModule ''mypkg>=1.0'', PipShow ''my-pkg>=1.0''] \<and>
   \<not> list_all (\<lambda>ev. ev = ImportModule ''my-pkg>=1.0'' \<or> ev = PipShow ''my-pkg>=1.0'')
       (fst (verify_installation (\<lambda>m. ImportError) (\<lambda>m. CalledProcessError [])
          ''my-pkg>=1.0''))"
  by (simp add: verify_installation_def package_name_of_def variations_of_def py_split_def
      py_replace_def py_startswith_def Let_def)

section \<open>The self-check gate\<close>

text \<open>
  C4. The self-check gate has three cases. With no digest file, the run is accepted and
  the current digest is written to the digest file. With a stored digest equal to the
  current one, the run is accepted with no prompt and no other effect. With a stored
  digest that differs, the user is prompted: on approval (\<open>y\<close> or \<open>Y\<close>) the new
  digest is written and the run is accepted; on any other answer the gate returns
  \<open>False\<close>, the digest file stays as it was, and \<open>main\<close> prints its message and
  ends with no package operation and without even probing Python. An accepted run goes on
  to the Python probe. (The digest of the script is readable and not empty, and where
  the gate writes the digest file, the file can be written.)
\<close>

theorem self_check_gate:
  assumes "calculate_file_hash e = Some current" and "current \<noteq> []"
  shows
  "(stored_hash e = NoHashFile \<and> hash_writable e \<longrightarrow>
      self_check e =
        ([Print ''This appears to be the first run of the script.'', SaveHash current],
         HashFile current, Some True)) \<and>
   (stored_hash e = HashFile stored \<and> py_strip stored = current \<longrightarrow>
      self_check e = ([], HashFile stored, Some True)) \<and>
   (stored_hash e = HashFile stored \<and> py_strip stored \<noteq> [] \<and> py_strip stored \<noteq> current \<and>
    continue_answer e = Some answer \<longrightarrow>
      list_ex is_prompt (fst (self_check e)) \<and>
      ((answer = ''y'' \<or> answer = ''Y'') \<and> hash_writable e \<longrightarrow>
         self_check e =
           ([Print ''Warning: The script has been modified since it was last run.'',
             Prompt ''Do you want to continue anyway? (y/n): '', SaveHash current],
            HashFile current, Some True)) \<and>
      (answer \<noteq> ''y'' \<and> answer \<noteq> ''Y'' \<longrightarrow>
         self_check e =
           ([Print ''Warning: The script has been modified since it was last run.'',
             Prompt ''Do you want to continue anyway? (y/n): ''],
            HashFile stored, Some False) \<and>
         main e =
           ([Print ''Warning: The script has been modified since it was last run.'',
             Prompt ''Do you want to continue anyway? (y/n): '',
             Print ''Exiting for security reasons.''],
            HashFile stored, SelfCheckRefused) \<and>
         \<not> list_ex package_operation (fst (main e)))) \<and>
   (snd (snd (self_check e)) = Some True \<longrightarrow> PythonVersion \<in> set (fst (main e)))"
proof (intro conjI impI)
  assume "stored_hash e = NoHashFile \<and> hash_writable e"
  then show "self_check e =
        ([Print ''This appears to be the first run of the script.'', SaveHash current],
         HashFile current, Some True)"
    using assms by (simp add: self_check_def load_script_hash_def)
next
  assume "stored_hash e = HashFile stored \<and> py_strip stored = current"
  then show "self_check e = ([], HashFile stored, Some True)"
    using assms by (simp add: self_check_def load_script_hash_def)
next
  assume h: "stored_hash e = HashFile stored \<and> py_strip stored \<noteq> [] \<and>
    py_strip stored \<noteq> current \<and> continue_answer e = Some answer"
  then have d: "current \<noteq> py_strip stored" by auto
  show "list_ex is_prompt (fst (self_check e))"
    using assms h d by (simp add: self_check_def load_script_hash_def)
  {
    assume "(answer = ''y'' \<or> answer = ''Y'') \<and> hash_writable e"
    then show "self_check e =
           ([Print ''Warning: The script has been modified since it was last run.'',
             Prompt ''Do you want to continue anyway? (y/n): '', SaveHash current],
            HashFile current, Some True)"
      using assms h d by (simp add: self_check_def load_script_hash_def py_lower_y)
  }
  {
    assume n: "answer \<noteq> ''y'' \<and> answer \<noteq> ''Y''"
    show sc: "self_check e =
           ([Print ''Warning: The script has been modified since it was last run.'',
             Prompt ''Do you want to continue anyway? (y/n): ''],
            HashFile stored, Some False)"
      using assms h d n by (simp add: self_check_def load_script_hash_def py_lower_y)
    show m: "main e =
           ([Print ''Warning: The script has been modified since it was last run.'',
             Prompt ''Do you want to continue anyway? (y/n): '',
             Print ''Exiting for security reasons.''],
            HashFile stored, SelfCheckRefused)"
      by (simp add: main_def sc)
    show "\<not> list_ex package_operation (fst (main e))"
      by (simp add: m)
  }
next
  assume "snd (snd (self_check e)) = Some True"
  then obtain evs0 f where sc: "self_check e = (evs0, f, Some True)"
    by (cases "self_check e") auto
  show "PythonVersion \<in> set (fst (main e))"
    by (cases "check_python_installation (python_version e)";
        cases "read_requirements (requirements_file e)";
        cases "snd (read_requirements (requirements_file e))")
      (auto simp: main_def sc split: bool.splits prod.splits loop_end.splits)
qed

text \<open>
  The gate on four runs: a first run; a run whose digest file holds the current digest
  and a line end; a changed script approved with \<open>Y\<close>; a changed script answered with
  \<open>yes\<close>, which is not an approval.
\<close>

theorem self_check_gate_witness:
  "self_check demo_env =
     ([Print ''This appears to be the first run of the script.'', SaveHash ''0a1b''],
      HashFile ''0a1b'', Some True) \<and>
   PythonVersion \<in> set (fst (main demo_env)) \<and>
   self_check (demo_env\<lparr>stored_hash := HashFile (''0a1b'' @ [CHR 0x0A])\<rparr>) =
     ([], HashFile (''0a1b'' @ [CHR 0x0A]), Some True) \<and>
   self_check (demo_env\<lparr>stored_hash := HashFile ''ffff'', continue_answer := Some ''Y''\<rparr>) =
     ([Print ''Warning: The script has been modified since it was last run.'',
       Prompt ''Do you want to continue anyway? (y/n): '', SaveHash ''0a1b''],
      HashFile ''0a1b'', Some True) \<and>
   main (demo_env\<lparr>stored_hash := HashFile ''ffff'', continue_answer := Some ''yes''\<rparr>) =
     ([Print ''Warning: The script has been modified since it was last run.'',
       Prompt ''Do you want to continue anyway? (y/n): '',
       Print ''Exiting for security reasons.''],
      HashFile ''ffff'', SelfCheckRefused)"
proof (intro conjI)
  have n: "''0a1b'' \<noteq> ([] :: string)" by simp
  have a: "calculate_file_hash demo_env = Some ''0a1b''" by (simp add: demo_env_def)
  note first = self_check_gate [OF a n, of "[]" "[]"]
  show 1: "self_check demo_env =
     ([Print ''This appears to be the first run of the script.'', SaveHash ''0a1b''],
      HashFile ''0a1b'', Some True)"
    by (rule mp [OF conjunct1 [OF first]]) (simp add: demo_env_def)
  show "PythonVersion \<in> set (fst (main demo_env))"
    by (rule mp [OF conjunct2 [OF conjunct2 [OF conjunct2 [OF first]]]]) (simp add: 1)
  have b: "calculate_file_hash (demo_env\<lparr>stored_hash := HashFile (''0a1b'' @ [CHR 0x0A])\<rparr>) =
      Some ''0a1b''"
    by (simp add: demo_env_def)
  show "self_check (demo_env\<lparr>stored_hash := HashFile (''0a1b'' @ [CHR 0x0A])\<rparr>) =
     ([], HashFile (''0a1b'' @ [CHR 0x0A]), Some True)"
    by (rule mp [OF conjunct1 [OF conjunct2 [OF self_check_gate [OF b n]]]])
      (simp add: demo_env_def py_strip_def py_isspace_def)
  have c: "calculate_file_hash
      (demo_env\<lparr>stored_hash := HashFile ''ffff'', continue_answer := Some ''Y''\<rparr>) =
      Some ''0a1b''"
    by (simp add: demo_env_def)
  have ch: "stored_hash (demo_env\<lparr>stored_hash := HashFile ''ffff'',
        continue_answer := Some ''Y''\<rparr>) = HashFile ''ffff'' \<and>
      py_strip ''ffff'' \<noteq> [] \<and> py_strip ''ffff'' \<noteq> ''0a1b'' \<and>
      continue_answer (demo_env\<lparr>stored_hash := HashFile ''ffff'',
        continue_answer := Some ''Y''\<rparr>) = Some ''Y''"
    by (simp add: demo_env_def py_strip_def py_isspace_def)
  show "self_check (demo_env\<lparr>stored_hash := HashFile ''ffff'', continue_answer := Some ''Y''\<rparr>) =
     ([Print ''Warning: The script has been modified since it was last run.'',
       Prompt ''Do you want to continue anyway? (y/n): '', SaveHash ''0a1b''],
      HashFile ''0a1b'', Some True)"
    by (rule mp [OF conjunct1 [OF conjunct2 [OF mp [OF conjunct1 [OF conjunct2 [OF conjunct2
        [OF self_check_gate [OF c n]]]] ch]]]])
      (simp add: demo_env_def)
  have d: "calculate_file_hash
      (demo_env\<lparr>stored_hash := HashFile ''ffff'', continue_answer := Some ''yes''\<rparr>) =
      Some ''0a1b''"
    by (simp add: demo_env_def)
  have dh: "stored_hash (demo_env\<lparr>stored_hash := HashFile ''ffff'',
        continue_answer := Some ''yes''\<rparr>) = HashFile ''ffff'' \<and>
      py_strip ''ffff'' \<noteq> [] \<and> py_strip ''ffff'' \<noteq> ''0a1b'' \<and>
      continue_answer (demo_env\<lparr>stored_hash := HashFile ''ffff'',
        continue_answer := Some ''yes''\<rparr>) = Some ''yes''"
    by (simp add: demo_env_def py_strip_def py_isspace_def)
  have no: "''yes'' \<noteq> ''y'' \<and> ''yes'' \<noteq> ''Y''" by simp
  show "main (demo_env\<lparr>stored_hash := HashFile ''ffff'', continue_answer := Some ''yes''\<rparr>) =
     ([Print ''Warning: The script has been modified since it was last run.'',
       Prompt ''Do you want to continue anyway? (y/n): '',
       Print ''Exiting for security reasons.''],
      HashFile ''ffff'', SelfCheckRefused)"
    by (rule conjunct1 [OF conjunct2 [OF mp [OF conjunct2 [OF conjunct2 [OF mp
        [OF conjunct1 [OF conjunct2 [OF conjunct2 [OF self_check_gate [OF d n]]]] dh]]] no]]])
qed

section \<open>The install loop and the rollback\<close>






text \<open>
  C2, as the code has it. When the installation of a valid requirement succeeds and its
  verification returns \<open>False\<close>, the failure is not fatal: the warning is printed and
  the loop goes on with the next requirement. The package is not added to the install
  record: the loop continues with the record it had, so a later rollback does not
  uninstall the package.
\<close>

theorem unverified_not_recorded:
  assumes "validate_package_name package"
    and "pip_install e k package = Exited out"
    and "verify_installation (import_module e k) (pip_show e k) package = (vs, Some False)"
  shows "install_loop e k (package # rest) installed_packages =
     (case install_loop e (Suc k) rest installed_packages of
        (evs, r) \<Rightarrow>
          ([PipInstall package, Print (''Successfully installed '' @ package)] @ vs @
           [Print (''Warning: Failed to verify installation of '' @ package),
            Print ''The package may still be installed correctly. Please check manually.''] @
           evs, r)) \<and>
    Print (''Warning: Failed to verify installation of '' @ package)
      \<in> set (fst (install_loop e k (package # rest) installed_packages)) \<and>
    fst (snd (install_loop e k (package # rest) installed_packages)) =
      fst (snd (install_loop e (Suc k) rest installed_packages))"
  using assms
  by (cases "install_loop e (Suc k) rest installed_packages")
    (simp add: install_package_def)

text \<open>
  The theorem at \<open>gamma>=1.0\<close>, which installs and is not verified, as the last
  requirement of a loop whose record holds \<open>alpha\<close>: the warning is printed, the loop
  ends normally and the record is still \<open>alpha\<close> alone.
\<close>

theorem unverified_not_recorded_witness:
  "install_loop demo_env 1 [''gamma>=1.0''] [''alpha''] =
     ([PipInstall ''gamma>=1.0'', Print ''Successfully installed gamma>=1.0'',
       ImportModule ''gamma>=1.0'', ImportModule ''gamma>=1.0'', ImportModule ''gamma>=1.0'',
       ImportModule ''gamma>=1.0'', PipShow ''gamma>=1.0'',
       Print ''Warning: Failed to verify installation of gamma>=1.0'',
       Print ''The package may still be installed correctly. Please check manually.''],
      [''alpha''], Finished)"
proof -
  have a: "validate_package_name ''gamma>=1.0''"
    by (simp add: validate_package_name_def requirement_pattern_def name_char_def op_char_def)
  have b: "pip_install demo_env 1 ''gamma>=1.0'' = Exited ''ok''"
    by (simp add: demo_env_def)
  have c: "verify_installation (import_module demo_env 1) (pip_show demo_env 1) ''gamma>=1.0'' =
      ([ImportModule ''gamma>=1.0'', ImportModule ''gamma>=1.0'', ImportModule ''gamma>=1.0'',
        ImportModule ''gamma>=1.0'', PipShow ''gamma>=1.0''], Some False)"
    by (simp add: demo_env_def verify_installation_def package_name_of_def variations_of_def
        py_split_def py_replace_def py_startswith_def Let_def)
  show ?thesis
    using conjunct1 [OF unverified_not_recorded [OF a b c, of "[]" "[''alpha'']"]]
    by simp
qed

text \<open>
  The claim as stated fails on the concrete run: \<open>gamma>=1.0\<close> is valid, its
  installation succeeds and its verification returns \<open>False\<close>, and the install record
  at the end of the loop, the one the rollback used, is \<open>alpha\<close> alone.
\<close>

theorem unverified_recorded_counterexample:
  "validate_package_name ''gamma>=1.0'' \<and>
   pip_install demo_env 1 ''gamma>=1.0'' = Exited ''ok'' \<and>
   snd (verify_installation (import_module demo_env 1) (pip_show demo_env 1) ''gamma>=1.0'') =
     Some False \<and>
   fst (snd (install_loop demo_env 0 [''alpha'', ''gamma>=1.0'', ''beta''] [])) = [''alpha''] \<and>
   ''gamma>=1.0'' \<notin> set (fst (snd (install_loop demo_env 0 [''alpha'', ''gamma>=1.0'', ''beta''] [])))"
  by (simp add: eval_simps)




section \<open>What reaches the package manager\<close>

lemma try_variations_no_install:
  "PipInstall q \<notin> set (fst (try_variations imp vs))"
  by (induction vs) (auto split: import_result.splits prod.splits)

lemma verify_no_install:
  "PipInstall q \<notin> set (fst (verify_installation imp run_show package))"
proof -
  obtain evs r where tv: "try_variations imp (variations_of (package_name_of package)) = (evs, r)"
    by (cases "try_variations imp (variations_of (package_name_of package))")
  then have "PipInstall q \<notin> set evs"
    using try_variations_no_install [of q imp "variations_of (package_name_of package)"] by simp
  then show ?thesis
    by (cases "imp (package_name_of package)"; cases r;
        simp add: verify_installation_def Let_def tv)
qed

lemma rollback_no_install: "PipInstall q \<notin> set (fst (rollback e j ps))"
proof (induction ps arbitrary: j)
  case Nil
  show ?case by simp
next
  case (Cons p ps)
  have "PipInstall q \<notin> set (fst (uninstall_package (pip_uninstall e j p) p))"
    by (cases "pip_uninstall e j p") (simp_all add: uninstall_package_def)
  with Cons [of "Suc j"] show ?case
    by (cases "uninstall_package (pip_uninstall e j p) p"; cases "rollback e (Suc j) ps")
      (auto split: bool.splits)
qed

lemma install_loop_installs_valid:
  "PipInstall q \<in> set (fst (install_loop e k reqs installed)) \<Longrightarrow>
   validate_package_name q \<and> q \<in> set reqs"
proof (induction reqs arbitrary: k installed)
  case Nil
  then show ?case by simp
next
  case (Cons p reqs)
  show ?case
  proof (cases "validate_package_name p")
    case False
    with Cons.prems have "PipInstall q \<in> set (fst (install_loop e (Suc k) reqs installed))"
      by (cases "install_loop e (Suc k) reqs installed") auto
    with Cons.IH show ?thesis by auto
  next
    case True
    note v = verify_no_install [of q "import_module e k" "pip_show e k" p]
    note r = rollback_no_install [of q e 0 installed]
    obtain vs vr where ver: "verify_installation (import_module e k) (pip_show e k) p = (vs, vr)"
      by (cases "verify_installation (import_module e k) (pip_show e k) p")
    obtain us ok where rb: "rollback e 0 installed = (us, ok)"
      by (cases "rollback e 0 installed")
    obtain evs1 r1 where l1: "install_loop e (Suc k) reqs installed = (evs1, r1)"
      by (cases "install_loop e (Suc k) reqs installed")
    obtain evs2 r2 where l2: "install_loop e (Suc k) reqs (installed @ [p]) = (evs2, r2)"
      by (cases "install_loop e (Suc k) reqs (installed @ [p])")
    have i1: "PipInstall q \<in> set evs1 \<Longrightarrow> validate_package_name q \<and> q \<in> set reqs"
      using Cons.IH [of "Suc k" installed] l1 by simp
    have i2: "PipInstall q \<in> set evs2 \<Longrightarrow> validate_package_name q \<and> q \<in> set reqs"
      using Cons.IH [of "Suc k" "installed @ [p]"] l2 by simp
    have "q = p \<or> PipInstall q \<in> set evs1 \<or> PipInstall q \<in> set evs2"
      using Cons.prems True v r ver rb l1 l2
      by (cases "install_package (pip_install e k p)")
        (auto simp: Let_def split: bool.splits option.splits if_splits)
    with True i1 i2 show ?thesis by auto
  qed
qed

end
